theory Spec2Isabelle
  imports Complex_Main
begin

section \<open>Tables of the dataframe engine\<close>

text \<open>
  The program in \<^verbatim>\<open>etl.py\<close> is a sequence of dataframe operations. A dataframe is
  modelled as its list of column names and its rows, each row a list of cells in column
  order. A cell is null or a value of one of the column types the two schemas use; the
  payload of a double is only carried, never computed with. A timestamp cell holds a naive
  local date and time as its distance in microseconds from 1970-01-01 00:00:00 on the
  local wall clock.
\<close>

datatype cell = CNull | CBool bool | CInt int | CDouble real | CStr string | CTime int

record dataframe =
  columns :: "string list"
  rows :: "cell list list"

text \<open>The cell of row \<open>r\<close> under column \<open>n\<close>, for a frame with columns \<open>cs\<close>.\<close>

definition cell_of :: "string list \<Rightarrow> cell list \<Rightarrow> string \<Rightarrow> cell" where
  "cell_of cs r n = (case map_of (zip cs r) n of Some c \<Rightarrow> c | None \<Rightarrow> CNull)"

definition column_values :: "string \<Rightarrow> dataframe \<Rightarrow> cell list" where
  "column_values n df = map (\<lambda>r. cell_of (columns df) r n) (rows df)"

section \<open>Calendar fields of a timestamp\<close>

text \<open>
  The engine's \<^verbatim>\<open>hour\<close>, \<^verbatim>\<open>dayofmonth\<close>, \<^verbatim>\<open>weekofyear\<close>, \<^verbatim>\<open>month\<close> and
  \<^verbatim>\<open>year\<close> read the fields of a timestamp in the proleptic Gregorian calendar.
  \<open>civil n\<close> is the date of day number \<open>n\<close> (day 0 is 1970-01-01): year, month, day of
  the month, and the day of the year counted from 0. The computation counts days from
  0000-03-01, in cycles of 400 years, centuries, four years and years, so that a leap day
  is the last day of its cycle.
\<close>

definition leap :: "int \<Rightarrow> bool" where
  "leap y = ((y mod 4 = 0 \<and> y mod 100 \<noteq> 0) \<or> y mod 400 = 0)"

definition civil :: "int \<Rightarrow> int \<times> int \<times> int \<times> int" where
  "civil n =
     (let z = n + 719468;
          era = z div 146097;
          doe = z mod 146097;
          c = min 3 (doe div 36524);
          r2 = doe - c * 36524;
          q = r2 div 1461;
          r3 = r2 mod 1461;
          a = min 3 (r3 div 365);
          doy = r3 - a * 365;
          y = era * 400 + c * 100 + q * 4 + a;
          mp = (5 * doy + 2) div 153;
          d = doy - (153 * mp + 2) div 5 + 1;
          m = (if mp < 10 then mp + 3 else mp - 9);
          yr = (if m \<le> 2 then y + 1 else y);
          yday = (if m \<le> 2 then doy - 306 else doy + 59 + (if leap yr then 1 else 0))
      in (yr, m, d, yday))"

definition days_of :: "int \<Rightarrow> int" where
  "days_of t = t div 86400000000"

definition year_of :: "int \<Rightarrow> int" where
  "year_of t = (case civil (days_of t) of (y, m, d, yd) \<Rightarrow> y)"

definition month_of :: "int \<Rightarrow> int" where
  "month_of t = (case civil (days_of t) of (y, m, d, yd) \<Rightarrow> m)"

definition dayofmonth_of :: "int \<Rightarrow> int" where
  "dayofmonth_of t = (case civil (days_of t) of (y, m, d, yd) \<Rightarrow> d)"

definition hour_of :: "int \<Rightarrow> int" where
  "hour_of t = (t div 3600000000) mod 24"

text \<open>
  The ISO 8601 week of a day is the week of the year of the Thursday of its
  Monday-to-Sunday week: \<open>(n + 3) mod 7\<close> is the weekday of day \<open>n\<close> counted from Monday.
\<close>

definition weekofyear_of :: "int \<Rightarrow> int" where
  "weekofyear_of t =
     (let n = days_of t;
          th = n - (n + 3) mod 7 + 3
      in case civil th of (y, m, d, yd) \<Rightarrow> yd div 7 + 1)"

section \<open>Column expressions\<close>

datatype column =
    Col string
  | Lit cell
  | Alias column string
  | Eq column column
  | And column column
  | Hour column
  | DayOfMonth column
  | WeekOfYear column
  | Month column
  | Year column

text \<open>The name a selected expression gets in the result.\<close>

fun name_of :: "column \<Rightarrow> string" where
  "name_of (Col n) = n"
| "name_of (Lit c) = ''lit''"
| "name_of (Alias e n) = n"
| "name_of (Eq a b) = ''('' @ name_of a @ '' = '' @ name_of b @ '')''"
| "name_of (And a b) = ''('' @ name_of a @ '' AND '' @ name_of b @ '')''"
| "name_of (Hour e) = ''hour('' @ name_of e @ '')''"
| "name_of (DayOfMonth e) = ''dayofmonth('' @ name_of e @ '')''"
| "name_of (WeekOfYear e) = ''weekofyear('' @ name_of e @ '')''"
| "name_of (Month e) = ''month('' @ name_of e @ '')''"
| "name_of (Year e) = ''year('' @ name_of e @ '')''"

definition time_field :: "(int \<Rightarrow> int) \<Rightarrow> cell \<Rightarrow> cell" where
  "time_field f c = (case c of CTime t \<Rightarrow> CInt (f t) | _ \<Rightarrow> CNull)"

text \<open>
  Comparison and conjunction follow SQL: a comparison with null is null, and a
  conjunction is false as soon as one side is false.
\<close>

definition sql_eq :: "cell \<Rightarrow> cell \<Rightarrow> cell" where
  "sql_eq a b = (if a = CNull \<or> b = CNull then CNull else CBool (a = b))"

definition sql_and :: "cell \<Rightarrow> cell \<Rightarrow> cell" where
  "sql_and a b =
     (if a = CBool False \<or> b = CBool False then CBool False
      else if a = CBool True \<and> b = CBool True then CBool True
      else CNull)"

fun eval :: "string list \<Rightarrow> cell list \<Rightarrow> column \<Rightarrow> cell" where
  "eval cs r (Col n) = cell_of cs r n"
| "eval cs r (Lit c) = c"
| "eval cs r (Alias e n) = eval cs r e"
| "eval cs r (Eq a b) = sql_eq (eval cs r a) (eval cs r b)"
| "eval cs r (And a b) = sql_and (eval cs r a) (eval cs r b)"
| "eval cs r (Hour e) = time_field hour_of (eval cs r e)"
| "eval cs r (DayOfMonth e) = time_field dayofmonth_of (eval cs r e)"
| "eval cs r (WeekOfYear e) = time_field weekofyear_of (eval cs r e)"
| "eval cs r (Month e) = time_field month_of (eval cs r e)"
| "eval cs r (Year e) = time_field year_of (eval cs r e)"

text \<open>The column names an expression reads.\<close>

fun references :: "column \<Rightarrow> string list" where
  "references (Col n) = [n]"
| "references (Lit c) = []"
| "references (Alias e n) = references e"
| "references (Eq a b) = references a @ references b"
| "references (And a b) = references a @ references b"
| "references (Hour e) = references e"
| "references (DayOfMonth e) = references e"
| "references (WeekOfYear e) = references e"
| "references (Month e) = references e"
| "references (Year e) = references e"

section \<open>Dataframe operations\<close>

text \<open>
  The operations follow the engine's relational meaning. The engine rejects an expression
  that names a column the frame does not have; in the model such a column reads as null.
  The program names only columns of its two schemas and columns it has added itself, so
  the difference does not show in a run.
\<close>

definition select :: "column list \<Rightarrow> dataframe \<Rightarrow> dataframe" where
  "select es df =
     \<lparr>columns = map name_of es,
      rows = map (\<lambda>r. map (eval (columns df) r) es) (rows df)\<rparr>"

definition withColumnRenamed :: "string \<Rightarrow> string \<Rightarrow> dataframe \<Rightarrow> dataframe" where
  "withColumnRenamed old new df =
     df\<lparr>columns := map (\<lambda>c. if c = old then new else c) (columns df)\<rparr>"

definition filter_df :: "column \<Rightarrow> dataframe \<Rightarrow> dataframe" where
  "filter_df cond df =
     df\<lparr>rows := filter (\<lambda>r. eval (columns df) r cond = CBool True) (rows df)\<rparr>"

text \<open>
  \<^verbatim>\<open>dropDuplicates(ks)\<close> keeps one row for every value of the key columns. Which
  row of a group is kept is the engine's choice: \<open>pick\<close> names the position of the kept
  row in its group. A key always comes from a row, so its group is never empty.
\<close>

definition key_of :: "string list \<Rightarrow> string list \<Rightarrow> cell list \<Rightarrow> cell list" where
  "key_of cs ks r = map (cell_of cs r) ks"

definition dedup :: "('a list \<Rightarrow> nat) \<Rightarrow> ('a \<Rightarrow> 'k) \<Rightarrow> 'a list \<Rightarrow> 'a list" where
  "dedup pick key xs =
     map (\<lambda>k. let g = filter (\<lambda>x. key x = k) xs in g ! (pick g mod length g))
         (remdups (map key xs))"

definition dropDuplicates ::
  "(cell list list \<Rightarrow> nat) \<Rightarrow> string list \<Rightarrow> dataframe \<Rightarrow> dataframe" where
  "dropDuplicates pick ks df =
     df\<lparr>rows := dedup pick (key_of (columns df) ks) (rows df)\<rparr>"

text \<open>
  An inner join: every pair of a left and a right row on which the condition is true,
  the left row followed by the right row.
\<close>

definition join_df :: "dataframe \<Rightarrow> dataframe \<Rightarrow> column \<Rightarrow> dataframe" where
  "join_df l_df r_df cond =
     (let cs = columns l_df @ columns r_df
      in \<lparr>columns = cs,
          rows = concat (map (\<lambda>l. map (\<lambda>r. l @ r)
                   (filter (\<lambda>r. eval cs (l @ r) cond = CBool True) (rows r_df)))
                   (rows l_df))\<rparr>)"

text \<open>
  \<^verbatim>\<open>withColumn\<close> with the values of the column given row by row: a column of that name
  is replaced, a new name is added as the last column.
\<close>

definition withColumn :: "string \<Rightarrow> cell list \<Rightarrow> dataframe \<Rightarrow> dataframe" where
  "withColumn name vals df =
     (if name \<in> set (columns df)
      then df\<lparr>rows := map (\<lambda>(r, v). map (\<lambda>(c, x). if c = name then v else x)
                                          (zip (columns df) r))
                          (zip (rows df) vals)\<rparr>
      else \<lparr>columns = columns df @ [name],
            rows = map (\<lambda>(r, v). r @ [v]) (zip (rows df) vals)\<rparr>)"

section \<open>Schemas and the JSON reader\<close>

datatype data_type = StringType | DoubleType | IntegerType | LongType

text \<open>\<open>StructField name type nullable\<close>, as in the two schemas of the program.\<close>

datatype struct_field = StructField string data_type bool

fun field_name :: "struct_field \<Rightarrow> string" where
  "field_name (StructField n t b) = n"

fun field_nullable :: "struct_field \<Rightarrow> bool" where
  "field_nullable (StructField n t b) = b"

text \<open>A raw record is a JSON object with scalar members.\<close>

datatype json = JNull | JBool bool | JInt int | JFloat real | JString string

type_synonym json_record = "(string \<times> json) list"

datatype error = TypeError | ValueError | MalformedRecords | PathAlreadyExists

text \<open>
  The functions of the program take the Spark session. In the model the session stands
  for everything a run takes from its environment: the records a source location expands
  to, the reader's conversion of a JSON value to a column type (\<open>None\<close> when the value
  does not fit the type), the offset of local time from UTC in seconds at a given epoch
  second, the row \<^verbatim>\<open>dropDuplicates\<close> keeps of a group of duplicates, and the sizes of
  the partitions over which \<^verbatim>\<open>monotonically_increasing_id\<close> numbers the rows.
\<close>

record session =
  files :: "string \<Rightarrow> json_record list"
  json_parser :: "data_type \<Rightarrow> json \<Rightarrow> cell option"
  utcoffset :: "int \<Rightarrow> int"
  tie_break :: "cell list list \<Rightarrow> nat"
  partition_sizes :: "nat list"

text \<open>
  The reader's parse modes. A member that is absent or null is read as null in every
  mode, whatever the field's nullable flag says: the reader takes the names and types of
  the schema and treats every column as nullable. A record is malformed when a member
  that is present does not fit the type of its column.
\<close>

datatype parse_mode = PERMISSIVE | DROPMALFORMED | FAILFAST

fun parse_field :: "(data_type \<Rightarrow> json \<Rightarrow> cell option) \<Rightarrow> json_record \<Rightarrow> struct_field \<Rightarrow> cell option" where
  "parse_field parser obj (StructField n t b) =
     (case map_of obj n of
        None \<Rightarrow> Some CNull
      | Some JNull \<Rightarrow> Some CNull
      | Some v \<Rightarrow> parser t v)"

definition malformed :: "(data_type \<Rightarrow> json \<Rightarrow> cell option) \<Rightarrow> struct_field list \<Rightarrow> json_record \<Rightarrow> bool" where
  "malformed parser schema obj = list_ex (\<lambda>f. parse_field parser obj f = None) schema"

definition parse_record :: "(data_type \<Rightarrow> json \<Rightarrow> cell option) \<Rightarrow> struct_field list \<Rightarrow> json_record \<Rightarrow> cell list" where
  "parse_record parser schema obj =
     map (\<lambda>f. case parse_field parser obj f of Some c \<Rightarrow> c | None \<Rightarrow> CNull) schema"

definition json_frame :: "(data_type \<Rightarrow> json \<Rightarrow> cell option) \<Rightarrow> struct_field list \<Rightarrow> json_record list \<Rightarrow> dataframe" where
  "json_frame parser schema objs =
     \<lparr>columns = map field_name schema, rows = map (parse_record parser schema) objs\<rparr>"

definition read_json :: "session \<Rightarrow> string \<Rightarrow> struct_field list \<Rightarrow> parse_mode \<Rightarrow> error + dataframe" where
  "read_json spark path schema mode =
     (let objs = files spark path;
          parser = json_parser spark
      in case mode of
           PERMISSIVE \<Rightarrow> Inr (json_frame parser schema objs)
         | DROPMALFORMED \<Rightarrow>
             Inr (json_frame parser schema (filter (\<lambda>r. \<not> malformed parser schema r) objs))
         | FAILFAST \<Rightarrow>
             (if list_ex (malformed parser schema) objs then Inl MalformedRecords
              else Inr (json_frame parser schema objs)))"

definition song_schema :: "struct_field list" where
  "song_schema =
     [StructField ''artist_id'' StringType False,
      StructField ''artist_latitude'' StringType True,
      StructField ''artist_longitude'' StringType True,
      StructField ''artist_location'' StringType True,
      StructField ''artist_name'' StringType False,
      StructField ''song_id'' StringType False,
      StructField ''title'' StringType False,
      StructField ''duration'' DoubleType True,
      StructField ''year'' IntegerType True]"

definition log_schema :: "struct_field list" where
  "log_schema =
     [StructField ''artist'' StringType False,
      StructField ''auth'' StringType True,
      StructField ''firstName'' StringType True,
      StructField ''gender'' StringType True,
      StructField ''itemInSession'' LongType True,
      StructField ''lastName'' StringType True,
      StructField ''length'' DoubleType True,
      StructField ''level'' StringType True,
      StructField ''location'' StringType True,
      StructField ''method'' StringType True,
      StructField ''page'' StringType False,
      StructField ''registration'' DoubleType True,
      StructField ''sessionId'' LongType True,
      StructField ''song'' StringType False,
      StructField ''status'' LongType True,
      StructField ''ts'' LongType False,
      StructField ''userAgent'' StringType True,
      StructField ''userId'' StringType False]"

text \<open>
  Both readers call \<^verbatim>\<open>spark.read.json(files, schema=...)\<close> and name no parse mode, so
  the reader runs in its default mode, the permissive one.
\<close>

definition create_song_df :: "session \<Rightarrow> string \<Rightarrow> error + dataframe" where
  "create_song_df spark song_files = read_json spark song_files song_schema PERMISSIVE"

definition create_log_df :: "session \<Rightarrow> string \<Rightarrow> error + dataframe" where
  "create_log_df spark log_files = read_json spark log_files log_schema PERMISSIVE"

text \<open>The frames the two readers return for a session and a location.\<close>

definition song_frame :: "session \<Rightarrow> string \<Rightarrow> dataframe" where
  "song_frame spark song_files = json_frame (json_parser spark) song_schema (files spark song_files)"

definition log_frame :: "session \<Rightarrow> string \<Rightarrow> dataframe" where
  "log_frame spark log_files = json_frame (json_parser spark) log_schema (files spark log_files)"

text \<open>A frame is well formed when every row has one cell for every column.\<close>

definition well_formed :: "dataframe \<Rightarrow> bool" where
  "well_formed df = list_all (\<lambda>r. length r = length (columns df)) (rows df)"

section \<open>The sink\<close>

text \<open>
  The destination storage maps a path to the table written there and the columns it is
  partitioned by. A write is one step on the storage; it returns the new storage and the
  error it raised, if any.
\<close>

record parquet =
  table :: dataframe
  partition_by :: "string list"

type_synonym storage = "string \<Rightarrow> parquet option"

datatype save_mode = Append | Overwrite | ErrorIfExists | Ignore

definition write_parquet ::
  "dataframe \<Rightarrow> string \<Rightarrow> save_mode \<Rightarrow> string list \<Rightarrow> storage \<Rightarrow> storage \<times> error option" where
  "write_parquet df path mode partitionBy st =
     (let new = \<lparr>table = df, partition_by = partitionBy\<rparr>
      in case st path of
           None \<Rightarrow> (st(path \<mapsto> new), None)
         | Some old \<Rightarrow>
             (case mode of
                Overwrite \<Rightarrow> (st(path \<mapsto> new), None)
              | Append \<Rightarrow>
                  (st(path \<mapsto> old\<lparr>table := (table old)\<lparr>rows := rows (table old) @ rows df\<rparr>\<rparr>), None)
              | ErrorIfExists \<Rightarrow> (st, Some PathAlreadyExists)
              | Ignore \<Rightarrow> (st, None)))"

text \<open>Sequencing of steps on the storage: an error ends the run where it is raised.\<close>

definition and_then ::
  "storage \<times> error option \<Rightarrow> (storage \<Rightarrow> storage \<times> error option) \<Rightarrow> storage \<times> error option" where
  "and_then r f = (case r of (st, None) \<Rightarrow> f st | (st, Some e) \<Rightarrow> (st, Some e))"

section \<open>Song data\<close>

definition song_fields :: "string list" where
  "song_fields = [''song_id'', ''title'', ''artist_id'', ''year'', ''duration'']"

definition songs_table :: "session \<Rightarrow> dataframe \<Rightarrow> dataframe" where
  "songs_table spark song_df =
     dropDuplicates (tie_break spark) [''song_id''] (select (map Col song_fields) song_df)"

definition artist_fields :: "string list" where
  "artist_fields =
     [''artist_id'', ''artist_name'', ''artist_location'', ''artist_latitude'', ''artist_longitude'']"

definition artists_table :: "session \<Rightarrow> dataframe \<Rightarrow> dataframe" where
  "artists_table spark song_df =
     dropDuplicates (tie_break spark) [''artist_id'']
       (withColumnRenamed ''artist_longitude'' ''longitude''
         (withColumnRenamed ''artist_latitude'' ''latitude''
           (withColumnRenamed ''artist_location'' ''location''
             (withColumnRenamed ''artist_name'' ''artist''
               (select (map Col artist_fields) song_df)))))"

definition process_song_data ::
  "session \<Rightarrow> dataframe \<Rightarrow> string \<Rightarrow> storage \<Rightarrow> storage \<times> error option" where
  "process_song_data spark song_df output_path st =
     (let songs_out_path = output_path @ ''songs/'' @ ''songs.parquet'';
          artists_out_path = output_path @ ''artists/'' @ ''artists.parquet''
      in and_then
           (write_parquet (songs_table spark song_df) songs_out_path Overwrite
              [''year'', ''artist_id''] st)
           (write_parquet (artists_table spark song_df) artists_out_path Overwrite []))"

section \<open>Log data\<close>

text \<open>
  \<^verbatim>\<open>process_log_data\<close> binds the name \<^verbatim>\<open>df\<close> three times: to the log events whose
  page is NextSong (\<open>df_next_song\<close>), to that frame with the timestamp column
  (\<open>df_timestamp\<close>), and to its join with the song data carrying the generated
  identifier (\<open>df_joined\<close>).
\<close>

definition df_next_song :: "dataframe \<Rightarrow> dataframe" where
  "df_next_song log_df = filter_df (Eq (Col ''page'') (Lit (CStr ''NextSong''))) log_df"

definition user_fields :: "string list" where
  "user_fields = [''userId'', ''firstName'', ''lastName'', ''gender'', ''level'']"

definition users_table :: "session \<Rightarrow> dataframe \<Rightarrow> dataframe" where
  "users_table spark df =
     dropDuplicates (tie_break spark) [''userId''] (select (map Col user_fields) df)"

text \<open>
  \<^verbatim>\<open>datetime.fromtimestamp(x/1000)\<close>: the local date and time of the instant \<open>ms\<close>
  milliseconds after the epoch. The quotient is a binary64 number which the library
  rounds to a whole number of microseconds; the model takes the exact value. Python's
  datetime covers the years 1 to 9999 and raises ValueError outside them.
\<close>

definition local_micros :: "(int \<Rightarrow> int) \<Rightarrow> int \<Rightarrow> int" where
  "local_micros offset ms = ms * 1000 + offset (ms div 1000) * 1000000"

definition fromtimestamp :: "(int \<Rightarrow> int) \<Rightarrow> int \<Rightarrow> error + int" where
  "fromtimestamp offset ms =
     (let t = local_micros offset ms
      in if 1 \<le> year_of t \<and> year_of t \<le> 9999 then Inr t else Inl ValueError)"

text \<open>The user-defined function of the program; on a null it divides \<^verbatim>\<open>None\<close>.\<close>

definition get_timestamp :: "session \<Rightarrow> cell \<Rightarrow> error + cell" where
  "get_timestamp spark x =
     (case x of
        CInt ms \<Rightarrow> (case fromtimestamp (utcoffset spark) ms of Inl e \<Rightarrow> Inl e | Inr t \<Rightarrow> Inr (CTime t))
      | _ \<Rightarrow> Inl TypeError)"

fun collect :: "('e + 'a) list \<Rightarrow> 'e + 'a list" where
  "collect [] = Inr []"
| "collect (x # xs) =
     (case x of
        Inl e \<Rightarrow> Inl e
      | Inr v \<Rightarrow> (case collect xs of Inl e \<Rightarrow> Inl e | Inr vs \<Rightarrow> Inr (v # vs)))"

definition df_timestamp :: "session \<Rightarrow> dataframe \<Rightarrow> error + dataframe" where
  "df_timestamp spark df =
     (case collect (map (get_timestamp spark) (column_values ''ts'' df)) of
        Inl e \<Rightarrow> Inl e
      | Inr vals \<Rightarrow> Inr (withColumn ''timestamp'' vals df))"

definition time_table :: "session \<Rightarrow> dataframe \<Rightarrow> dataframe" where
  "time_table spark df =
     dropDuplicates (tie_break spark) [''start_time'']
       (select
          [Alias (Col ''timestamp'') ''start_time'',
           Alias (Hour (Col ''timestamp'')) ''hour'',
           Alias (DayOfMonth (Col ''timestamp'')) ''day'',
           Alias (WeekOfYear (Col ''timestamp'')) ''week'',
           Alias (Month (Col ''timestamp'')) ''month'',
           Alias (Year (Col ''timestamp'')) ''year''] df)"

text \<open>
  \<^verbatim>\<open>monotonically_increasing_id()\<close> numbers the rows partition by partition: the row at
  position \<open>j\<close> of partition \<open>p\<close> gets \<open>p * 2^33 + j\<close>. The rows are dealt to the
  partitions in order, by the sizes the engine chose; the rows left over when the sizes
  run out make up one last partition.
\<close>

fun monotonically_increasing_id :: "nat list \<Rightarrow> nat \<Rightarrow> nat \<Rightarrow> int list" where
  "monotonically_increasing_id [] p n = map (\<lambda>j. int p * 8589934592 + int j) [0..<n]"
| "monotonically_increasing_id (s # ss) p n =
     (if n \<le> s then map (\<lambda>j. int p * 8589934592 + int j) [0..<n]
      else map (\<lambda>j. int p * 8589934592 + int j) [0..<s]
           @ monotonically_increasing_id ss (Suc p) (n - s))"

definition df_joined :: "session \<Rightarrow> dataframe \<Rightarrow> dataframe \<Rightarrow> dataframe" where
  "df_joined spark df song_df =
     (let j = join_df df song_df
                (And (Eq (Col ''title'') (Col ''song''))
                     (Eq (Col ''artist_name'') (Col ''artist'')))
      in withColumn ''songplay_id''
           (map CInt (monotonically_increasing_id (partition_sizes spark) 0 (length (rows j)))) j)"

definition songplays :: "dataframe \<Rightarrow> dataframe" where
  "songplays df =
     select
       [Alias (Col ''timestamp'') ''start_time'',
        Col ''userId'',
        Col ''level'',
        Col ''song_id'',
        Col ''artist_id'',
        Col ''sessionId'',
        Col ''location'',
        Col ''userAgent'',
        Alias (Year (Col ''timestamp'')) ''year'',
        Alias (Month (Col ''timestamp'')) ''month''] df"

text \<open>
  The users table is written before the timestamp column is computed, so an error of the
  user-defined function leaves the users table written and the other two untouched.
\<close>

definition process_log_data ::
  "session \<Rightarrow> dataframe \<Rightarrow> dataframe \<Rightarrow> string \<Rightarrow> storage \<Rightarrow> storage \<times> error option" where
  "process_log_data spark song_df log_df output_path st =
     (let df = df_next_song log_df;
          users_out_path = output_path @ ''users/'' @ ''users.parquet'';
          time_out_path = output_path @ ''time/'' @ ''time.parquet'';
          songplays_out_path = output_path @ ''songplays/'' @ ''songplays.parquet''
      in and_then (write_parquet (users_table spark df) users_out_path Overwrite [] st)
           (\<lambda>st. case df_timestamp spark df of
                    Inl e \<Rightarrow> (st, Some e)
                  | Inr df \<Rightarrow>
                      and_then
                        (write_parquet (time_table spark df) time_out_path Overwrite
                           [''year'', ''month''] st)
                        (write_parquet (songplays (df_joined spark df song_df))
                           songplays_out_path Overwrite [''year'', ''month''])))"

section \<open>The whole run\<close>

text \<open>
  \<open>etl\<close> is the body of \<^verbatim>\<open>main\<close> from the creation of the two frames on, with the
  three paths as parameters; \<open>main\<close> fixes them as the program does. Before that,
  \<^verbatim>\<open>main\<close> copies two keys from a configuration file to the process environment and
  obtains the session; the model starts from the session.
\<close>

definition etl :: "session \<Rightarrow> string \<Rightarrow> string \<Rightarrow> string \<Rightarrow> storage \<Rightarrow> storage \<times> error option" where
  "etl spark song_files log_files output_path st =
     (case create_song_df spark song_files of
        Inl e \<Rightarrow> (st, Some e)
      | Inr song_df \<Rightarrow>
          (case create_log_df spark log_files of
             Inl e \<Rightarrow> (st, Some e)
           | Inr log_df \<Rightarrow>
               and_then (process_song_data spark song_df output_path st)
                 (process_log_data spark song_df log_df output_path)))"

definition main :: "session \<Rightarrow> storage \<Rightarrow> storage \<times> error option" where
  "main spark st =
     etl spark ''s3a://udacity-dend/song_data/*/*/*/*.json''
       ''s3a://udacity-dend/log_data/*/*/*.json'' ''s3a://project4-alex'' st"

section \<open>Where the rows of the log tables come from\<close>

text \<open>
  The vocabulary of the statements about the log tables: a log event whose page is
  NextSong; a song record whose title and artist name are those of an event, under the
  comparison of the join, which no null satisfies; and the rows the three selections
  build from an event \<open>e\<close>, its local time \<open>t\<close> and a song record \<open>s\<close>.
\<close>

definition is_next_song :: "dataframe \<Rightarrow> cell list \<Rightarrow> bool" where
  "is_next_song log_df e = (cell_of (columns log_df) e ''page'' = CStr ''NextSong'')"

definition song_matches :: "dataframe \<Rightarrow> dataframe \<Rightarrow> cell list \<Rightarrow> cell list \<Rightarrow> bool" where
  "song_matches song_df log_df e s =
     (cell_of (columns song_df) s ''title'' \<noteq> CNull
      \<and> cell_of (columns song_df) s ''title'' = cell_of (columns log_df) e ''song''
      \<and> cell_of (columns song_df) s ''artist_name'' \<noteq> CNull
      \<and> cell_of (columns song_df) s ''artist_name'' = cell_of (columns log_df) e ''artist'')"

definition user_row :: "dataframe \<Rightarrow> cell list \<Rightarrow> cell list" where
  "user_row log_df e = map (cell_of (columns log_df) e) user_fields"

definition time_row :: "int \<Rightarrow> cell list" where
  "time_row t =
     [CTime t, CInt (hour_of t), CInt (dayofmonth_of t), CInt (weekofyear_of t),
      CInt (month_of t), CInt (year_of t)]"

definition songplay_row :: "dataframe \<Rightarrow> dataframe \<Rightarrow> cell list \<Rightarrow> int \<Rightarrow> cell list \<Rightarrow> cell list" where
  "songplay_row song_df log_df e t s =
     [CTime t,
      cell_of (columns log_df) e ''userId'',
      cell_of (columns log_df) e ''level'',
      cell_of (columns song_df) s ''song_id'',
      cell_of (columns song_df) s ''artist_id'',
      cell_of (columns log_df) e ''sessionId'',
      cell_of (columns log_df) e ''location'',
      cell_of (columns log_df) e ''userAgent'',
      CInt (year_of t),
      CInt (month_of t)]"

section \<open>A concrete environment\<close>

text \<open>
  A reader that accepts a JSON value exactly when it has the JSON type of the column,
  within the range of the column's integer type; and a session over two small sources,
  on UTC, that keeps the first row of every group of duplicates.
\<close>

definition parse_value :: "data_type \<Rightarrow> json \<Rightarrow> cell option" where
  "parse_value t v =
     (case (t, v) of
        (StringType, JString s) \<Rightarrow> Some (CStr s)
      | (DoubleType, JFloat x) \<Rightarrow> Some (CDouble x)
      | (DoubleType, JInt i) \<Rightarrow> Some (CDouble (of_int i))
      | (IntegerType, JInt i) \<Rightarrow>
          (if - 2147483648 \<le> i \<and> i < 2147483648 then Some (CInt i) else None)
      | (LongType, JInt i) \<Rightarrow>
          (if - 9223372036854775808 \<le> i \<and> i < 9223372036854775808 then Some (CInt i)
           else None)
      | _ \<Rightarrow> None)"

definition song_S1 :: json_record where
  "song_S1 =
     [(''song_id'', JString ''S1''), (''title'', JString ''Test''),
      (''artist_id'', JString ''A1''), (''artist_name'', JString ''Artist''),
      (''year'', JInt 2000), (''duration'', JInt 200)]"

definition event_U1 :: json_record where
  "event_U1 =
     [(''page'', JString ''NextSong''), (''song'', JString ''Test''),
      (''artist'', JString ''Artist''), (''userId'', JString ''U1''),
      (''ts'', JInt 1541121934796), (''sessionId'', JInt 1), (''level'', JString ''free''),
      (''location'', JString ''X''), (''userAgent'', JString ''Y'')]"

definition session_of :: "json_record list \<Rightarrow> json_record list \<Rightarrow> int \<Rightarrow> session" where
  "session_of songs events offset =
     \<lparr>files = (\<lambda>p. if p = ''songs'' then songs else if p = ''logs'' then events else []),
      json_parser = parse_value,
      utcoffset = (\<lambda>s. offset),
      tie_break = (\<lambda>g. 0),
      partition_sizes = []\<rparr>"


text \<open>
  An event of another page, and a NextSong event whose song no song record has; the
  session of the one song and the one event of the first example, and a session over the
  one song and the three events.
\<close>

definition event_home :: json_record where
  "event_home =
     [(''page'', JString ''Home''), (''userId'', JString ''U2''),
      (''ts'', JInt 1541122000000), (''level'', JString ''free'')]"

definition event_unmatched :: json_record where
  "event_unmatched =
     [(''page'', JString ''NextSong''), (''song'', JString ''Other''),
      (''artist'', JString ''Artist''), (''userId'', JString ''U3''),
      (''ts'', JInt 1541122100000), (''level'', JString ''paid'')]"


definition mixed :: session where
  "mixed = session_of [song_S1] [event_U1, event_home, event_unmatched] 0"


text \<open>An event in the last second of 2017 in UTC, a Sunday.\<close>

definition event_new_year :: json_record where
  "event_new_year =
     [(''page'', JString ''NextSong''), (''song'', JString ''Test''),
      (''artist'', JString ''Artist''), (''userId'', JString ''U1''),
      (''ts'', JInt 1514764799000), (''level'', JString ''free'')]"

text \<open>
  A song record without a title, a log event without a page, and a log event whose
  \<open>ts\<close> is a string.
\<close>

definition song_no_title :: json_record where
  "song_no_title =
     [(''song_id'', JString ''S2''), (''artist_id'', JString ''A2''),
      (''artist_name'', JString ''Artist'')]"

definition event_no_page :: json_record where
  "event_no_page =
     [(''song'', JString ''Test''), (''artist'', JString ''Artist''),
      (''userId'', JString ''U1''), (''ts'', JInt 1541121934796)]"

definition event_bad_ts :: json_record where
  "event_bad_ts =
     [(''page'', JString ''NextSong''), (''song'', JString ''Test''),
      (''artist'', JString ''Artist''), (''userId'', JString ''U1''),
      (''ts'', JString ''yesterday'')]"

section \<open>Properties of the operations\<close>

subsection \<open>Deduplication\<close>

lemma dedup_in_group:
  assumes "k \<in> set (map key xs)"
  shows "key (let g = filter (\<lambda>x. key x = k) xs in g ! (pick g mod length g)) = k
       \<and> (let g = filter (\<lambda>x. key x = k) xs in g ! (pick g mod length g)) \<in> set xs"
proof -
  let ?g = "filter (\<lambda>x. key x = k) xs"
  from assms have "?g \<noteq> []" by (auto simp: filter_empty_conv)
  then have "pick ?g mod length ?g < length ?g" by simp
  then have "?g ! (pick ?g mod length ?g) \<in> set ?g" by (rule nth_mem)
  then show ?thesis by (simp add: Let_def)
qed

lemma map_key_dedup: "map key (dedup pick key xs) = remdups (map key xs)"
  unfolding dedup_def map_map
  by (rule map_idI) (use dedup_in_group [of _ key xs pick] in simp)

lemma set_dedup: "set (dedup pick key xs) \<subseteq> set xs"
  unfolding dedup_def using dedup_in_group [of _ key xs pick] by auto

lemma remdups_map_inj: "inj f \<Longrightarrow> remdups (map f xs) = map f (remdups xs)"
  by (induction xs) (auto simp: inj_image_mem_iff)

lemma column_values_dropDuplicates:
  "column_values n (dropDuplicates pick [n] df) = remdups (column_values n df)"
proof -
  let ?c = "\<lambda>r. cell_of (columns df) r n"
  let ?ys = "dedup pick (key_of (columns df) [n]) (rows df)"
  have k: "key_of (columns df) [n] = (\<lambda>r. [?c r])" by (rule ext) (simp add: key_of_def)
  have "map (\<lambda>v. [v]) (map ?c ?ys) = map (\<lambda>r. [?c r]) ?ys" by simp
  also have "\<dots> = remdups (map (\<lambda>r. [?c r]) (rows df))"
    using map_key_dedup [of "\<lambda>r. [?c r]" pick "rows df"] by (simp add: k)
  also have "\<dots> = map (\<lambda>v. [v]) (remdups (map ?c (rows df)))"
    by (simp add: remdups_map_inj [symmetric] o_def inj_on_def)
  finally have "map ?c ?ys = remdups (map ?c (rows df))"
    by (rule map_injective) (simp add: inj_on_def)
  then show ?thesis by (simp add: column_values_def dropDuplicates_def)
qed


lemma cell_of_map:
  "n \<in> set ns \<Longrightarrow> cell_of ns (map f ns) n = f n"
  by (simp add: cell_of_def map_of_zip_map)

lemma column_values_select_Col:
  "n \<in> set ns \<Longrightarrow> column_values n (select (map Col ns) df) = column_values n df"
  by (simp add: column_values_def select_def o_def cell_of_map [of n ns "\<lambda>m. cell_of (columns df) _ m"] cong: map_cong)

lemma write_parquet_Overwrite:
  "write_parquet df path Overwrite cols st =
     (st(path \<mapsto> \<lparr>table = df, partition_by = cols\<rparr>), None)"
  by (simp add: write_parquet_def Let_def split: option.split)

lemma process_song_data_storage:
  "process_song_data spark song_df output_path st =
     (st(output_path @ ''songs/songs.parquet'' \<mapsto>
           \<lparr>table = songs_table spark song_df, partition_by = [''year'', ''artist_id'']\<rparr>,
         output_path @ ''artists/artists.parquet'' \<mapsto>
           \<lparr>table = artists_table spark song_df, partition_by = []\<rparr>), None)"
  by (simp add: process_song_data_def and_then_def write_parquet_Overwrite)

lemma songs_table_keys:
  "column_values ''song_id'' (songs_table spark song_df) =
     remdups (column_values ''song_id'' song_df)"
proof -
  have "''song_id'' \<in> set song_fields" by (simp add: song_fields_def)
  then show ?thesis
    by (simp only: songs_table_def column_values_dropDuplicates column_values_select_Col)
qed

lemma artists_table_keys:
  "column_values ''artist_id'' (artists_table spark song_df) =
     remdups (column_values ''artist_id'' song_df)"
proof -
  let ?sel = "select (map Col artist_fields) song_df"
  let ?ren = "withColumnRenamed ''artist_longitude'' ''longitude''
         (withColumnRenamed ''artist_latitude'' ''latitude''
           (withColumnRenamed ''artist_location'' ''location''
             (withColumnRenamed ''artist_name'' ''artist'' ?sel)))"
  have "column_values ''artist_id'' ?ren = column_values ''artist_id'' ?sel"
    by (simp add: column_values_def withColumnRenamed_def select_def artist_fields_def
        cell_of_def)
  also have "\<dots> = column_values ''artist_id'' song_df"
    by (rule column_values_select_Col) (simp add: artist_fields_def)
  finally show ?thesis
    by (simp add: artists_table_def column_values_dropDuplicates)
qed

subsection \<open>Well-formed frames and added columns\<close>

lemma cell_of_snoc:
  "length r = length cs \<Longrightarrow> m \<noteq> n \<Longrightarrow> cell_of (cs @ [n]) (r @ [v]) m = cell_of cs r m"
  by (auto simp: cell_of_def map_add_def split: option.split dest: map_of_SomeD set_zip_leftD)

lemma eval_snoc:
  "length r = length cs \<Longrightarrow> n \<notin> set (references e) \<Longrightarrow>
     eval (cs @ [n]) (r @ [v]) e = eval cs r e"
  by (induction e) (simp_all add: cell_of_snoc)

lemma select_withColumn:
  assumes "well_formed df" and "length vals = length (rows df)"
    and "list_all (\<lambda>e. n \<notin> set (references e)) es" and "n \<notin> set (columns df)"
  shows "select es (withColumn n vals df) = select es df"
proof -
  have "map (\<lambda>e. eval (columns df @ [n]) (r @ [v]) e) es = map (eval (columns df) r) es"
    if "r \<in> set (rows df)" for r v
    using that assms(1,3) by (auto simp: well_formed_def list_all_iff eval_snoc)
  then have "map (\<lambda>(r, v). map (eval (columns df @ [n]) (r @ [v])) es) (zip (rows df) vals)
           = map (\<lambda>(r, v). map (eval (columns df) r) es) (zip (rows df) vals)"
    by (auto dest: set_zip_leftD)
  also have "\<dots> = map (\<lambda>r. map (eval (columns df) r) es) (map fst (zip (rows df) vals))"
    by (simp add: o_def case_prod_unfold)
  also have "\<dots> = map (\<lambda>r. map (eval (columns df) r) es) (rows df)"
    using assms(2) by simp
  finally show ?thesis
    using assms(4) by (simp add: select_def withColumn_def o_def case_prod_unfold)
qed

lemma length_monotonically_increasing_id:
  "length (monotonically_increasing_id ss p n) = n"
  by (induction ss p n rule: monotonically_increasing_id.induct) auto

lemma well_formed_json_frame: "well_formed (json_frame parser schema objs)"
  by (simp add: well_formed_def json_frame_def parse_record_def list_all_iff)

lemma well_formed_filter_df: "well_formed df \<Longrightarrow> well_formed (filter_df c df)"
  by (simp add: well_formed_def filter_df_def list_all_iff)

lemma well_formed_withColumn: "well_formed df \<Longrightarrow> well_formed (withColumn n vals df)"
  by (auto simp: well_formed_def withColumn_def list_all_iff dest: set_zip_leftD)

lemma well_formed_join_df:
  "well_formed a \<Longrightarrow> well_formed b \<Longrightarrow> well_formed (join_df a b c)"
  by (auto simp: well_formed_def join_df_def list_all_iff Let_def)

lemma columns_join_df: "columns (join_df a b c) = columns a @ columns b"
  by (simp add: join_df_def Let_def)

lemma collect_Inr_length: "collect xs = Inr vs \<Longrightarrow> length vs = length xs"
  by (induction xs arbitrary: vs) (auto split: sum.splits)

lemma df_timestamp_Inr:
  assumes "df_timestamp spark df = Inr df'"
  obtains vals where "df' = withColumn ''timestamp'' vals df"
    and "length vals = length (rows df)"
    and "collect (map (get_timestamp spark) (column_values ''ts'' df)) = Inr vals"
  using assms
  by (auto simp: df_timestamp_def column_values_def split: sum.splits dest: collect_Inr_length)

lemma songplays_df_joined:
  assumes "well_formed df" and "well_formed song_df"
    and "''songplay_id'' \<notin> set (columns df)" and "''songplay_id'' \<notin> set (columns song_df)"
  shows "songplays (df_joined spark df song_df) =
         songplays (join_df df song_df
           (And (Eq (Col ''title'') (Col ''song'')) (Eq (Col ''artist_name'') (Col ''artist''))))"
  unfolding df_joined_def songplays_def Let_def
  by (rule select_withColumn)
     (simp_all add: well_formed_join_df assms length_monotonically_increasing_id
        columns_join_df)


lemma well_formed_df_timestamp:
  "well_formed df \<Longrightarrow> df_timestamp spark df = Inr df' \<Longrightarrow> well_formed df'"
  by (auto elim!: df_timestamp_Inr intro: well_formed_withColumn)

lemma well_formed_song_frame: "well_formed (song_frame spark song_files)"
  by (simp add: song_frame_def well_formed_json_frame)

lemma well_formed_next_song: "well_formed (df_next_song (log_frame spark log_files))"
  by (simp add: df_next_song_def log_frame_def well_formed_filter_df well_formed_json_frame)

subsection \<open>Ranges of the calendar fields\<close>









subsection \<open>Rows of the filtered and the timestamped frame\<close>

lemma collect_map_Inr:
  "collect (map f xs) = Inr vs \<Longrightarrow> list_all2 (\<lambda>x v. f x = Inr v) xs vs"
  by (induction xs arbitrary: vs) (auto split: sum.splits)

lemma cell_of_snoc_new:
  "length r = length cs \<Longrightarrow> n \<notin> set cs \<Longrightarrow> cell_of (cs @ [n]) (r @ [v]) n = v"
  by (auto simp: cell_of_def map_add_def split: option.split dest: map_of_SomeD set_zip_leftD)

lemma fst_set_zip: "length r = length cs \<Longrightarrow> fst ` set (zip cs r) = set cs"
  by (metis map_fst_zip set_map)

lemma cell_of_append_left:
  "length r = length cs \<Longrightarrow> n \<in> set cs \<Longrightarrow> cell_of (cs @ cs') (r @ r') n = cell_of cs r n"
  by (auto simp: cell_of_def map_add_def map_of_eq_None_iff fst_set_zip split: option.split)

lemma cell_of_append_right:
  "length r = length cs \<Longrightarrow> n \<notin> set cs \<Longrightarrow> cell_of (cs @ cs') (r @ r') n = cell_of cs' r' n"
  by (auto simp: cell_of_def map_add_def split: option.split dest: map_of_SomeD set_zip_leftD)

lemma sql_eq_True: "sql_eq a b = CBool True \<longleftrightarrow> a \<noteq> CNull \<and> a = b"
  by (auto simp: sql_eq_def)

lemma sql_and_True: "sql_and a b = CBool True \<longleftrightarrow> a = CBool True \<and> b = CBool True"
  by (auto simp: sql_and_def)

lemma rows_df_next_song:
  "rows (df_next_song df) =
     filter (\<lambda>e. cell_of (columns df) e ''page'' = CStr ''NextSong'') (rows df)"
  by (auto simp: df_next_song_def filter_df_def sql_eq_True intro!: filter_cong)

lemma columns_df_next_song: "columns (df_next_song df) = columns df"
  by (simp add: df_next_song_def filter_df_def)

lemma get_timestamp_Inr:
  assumes "get_timestamp spark c = Inr v"
  obtains ms where "c = CInt ms"
    and "v = CTime (local_micros (utcoffset spark) ms)"
    and "1 \<le> year_of (local_micros (utcoffset spark) ms)"
    and "year_of (local_micros (utcoffset spark) ms) \<le> 9999"
  using assms
  by (auto simp: get_timestamp_def fromtimestamp_def Let_def split: cell.splits if_splits)

lemma rows_df_timestamp:
  assumes "df_timestamp spark df = Inr df'" and "r \<in> set (rows df')"
    and "''timestamp'' \<notin> set (columns df)"
  obtains e v where "r = e @ [v]" and "e \<in> set (rows df)"
    and "get_timestamp spark (cell_of (columns df) e ''ts'') = Inr v"
proof -
  from assms(1) obtain vals where d: "df' = withColumn ''timestamp'' vals df"
    and c: "collect (map (get_timestamp spark) (column_values ''ts'' df)) = Inr vals"
    by (rule df_timestamp_Inr)
  from c have "list_all2 (\<lambda>x v. get_timestamp spark x = Inr v)
                 (map (\<lambda>r. cell_of (columns df) r ''ts'') (rows df)) vals"
    unfolding column_values_def by (rule collect_map_Inr)
  then have l: "list_all2 (\<lambda>e v. get_timestamp spark (cell_of (columns df) e ''ts'') = Inr v)
                 (rows df) vals"
    by (simp add: list_all2_map1)
  from assms(2,3) obtain e v where "(e, v) \<in> set (zip (rows df) vals)" and "r = e @ [v]"
    by (auto simp: d withColumn_def)
  with l that show thesis
    by (auto simp: list_all2_iff dest: set_zip_leftD)
qed

lemma columns_df_timestamp:
  "df_timestamp spark df = Inr df' \<Longrightarrow> ''timestamp'' \<notin> set (columns df) \<Longrightarrow>
     columns df' = columns df @ [''timestamp'']"
  by (auto elim!: df_timestamp_Inr simp: withColumn_def)

lemma columns_log_frame:
  "columns (log_frame spark log_files) =
     [''artist'', ''auth'', ''firstName'', ''gender'', ''itemInSession'', ''lastName'',
      ''length'', ''level'', ''location'', ''method'', ''page'', ''registration'',
      ''sessionId'', ''song'', ''status'', ''ts'', ''userAgent'', ''userId'']"
  by (simp add: log_frame_def json_frame_def log_schema_def)

lemma columns_song_frame:
  "columns (song_frame spark song_files) =
     [''artist_id'', ''artist_latitude'', ''artist_longitude'', ''artist_location'',
      ''artist_name'', ''song_id'', ''title'', ''duration'', ''year'']"
  by (simp add: song_frame_def json_frame_def song_schema_def)

lemma length_row_log_frame:
  "e \<in> set (rows (log_frame spark log_files)) \<Longrightarrow> length e = 18"
  using well_formed_json_frame [of "json_parser spark" log_schema "files spark log_files"]
  by (simp add: well_formed_def list_all_iff log_frame_def [symmetric] columns_log_frame)
 
lemma length_row_song_frame:
  "s \<in> set (rows (song_frame spark song_files)) \<Longrightarrow> length s = 9"
  using well_formed_json_frame [of "json_parser spark" song_schema "files spark song_files"]
  by (simp add: well_formed_def list_all_iff song_frame_def [symmetric] columns_song_frame)

lemma columns_timestamped:
  assumes "df_timestamp spark (df_next_song (log_frame spark log_files)) = Inr df"
  shows "columns df = columns (log_frame spark log_files) @ [''timestamp'']"
  using columns_df_timestamp [OF assms] by (simp add: columns_df_next_song columns_log_frame)

text \<open>Every row of the timestamped frame is a NextSong event followed by its local time.\<close>

lemma timestamped_row:
  assumes "df_timestamp spark (df_next_song (log_frame spark log_files)) = Inr df"
    and "r \<in> set (rows df)"
  obtains e ms where "e \<in> set (rows (log_frame spark log_files))"
    and "cell_of (columns (log_frame spark log_files)) e ''page'' = CStr ''NextSong''"
    and "cell_of (columns (log_frame spark log_files)) e ''ts'' = CInt ms"
    and "r = e @ [CTime (local_micros (utcoffset spark) ms)]"
    and "1 \<le> year_of (local_micros (utcoffset spark) ms)"
    and "year_of (local_micros (utcoffset spark) ms) \<le> 9999"
proof -
  have "''timestamp'' \<notin> set (columns (df_next_song (log_frame spark log_files)))"
    by (simp add: columns_df_next_song columns_log_frame)
  with assms obtain e v where r: "r = e @ [v]"
    and e: "e \<in> set (rows (df_next_song (log_frame spark log_files)))"
    and g: "get_timestamp spark (cell_of (columns (df_next_song (log_frame spark log_files))) e ''ts'') = Inr v"
    by (rule rows_df_timestamp)
  from g obtain ms where "cell_of (columns (log_frame spark log_files)) e ''ts'' = CInt ms"
    and "v = CTime (local_micros (utcoffset spark) ms)"
    and "1 \<le> year_of (local_micros (utcoffset spark) ms)"
    and "year_of (local_micros (utcoffset spark) ms) \<le> 9999"
    unfolding columns_df_next_song by (rule get_timestamp_Inr)
  with r e that show thesis
    by (simp add: rows_df_next_song)
qed

subsection \<open>What a run leaves in the storage\<close>

lemma create_song_df_frame: "create_song_df spark song_files = Inr (song_frame spark song_files)"
  by (simp add: create_song_df_def read_json_def song_frame_def)

lemma create_log_df_frame: "create_log_df spark log_files = Inr (log_frame spark log_files)"
  by (simp add: create_log_df_def read_json_def log_frame_def)

lemma process_log_data_storage:
  "process_log_data spark song_df log_df output_path st =
     (let df = df_next_song log_df;
          st1 = st(output_path @ ''users/users.parquet'' \<mapsto>
                  \<lparr>table = users_table spark df, partition_by = []\<rparr>)
      in case df_timestamp spark df of
           Inl e \<Rightarrow> (st1, Some e)
         | Inr df' \<Rightarrow>
             (st1(output_path @ ''time/time.parquet'' \<mapsto>
                    \<lparr>table = time_table spark df', partition_by = [''year'', ''month'']\<rparr>,
                  output_path @ ''songplays/songplays.parquet'' \<mapsto>
                    \<lparr>table = songplays (df_joined spark df' song_df),
                     partition_by = [''year'', ''month'']\<rparr>), None))"
  by (simp add: process_log_data_def and_then_def write_parquet_Overwrite Let_def
      split: sum.split)

lemma etl_storage:
  "etl spark song_files log_files output_path st =
     and_then (process_song_data spark (song_frame spark song_files) output_path st)
       (process_log_data spark (song_frame spark song_files) (log_frame spark log_files)
          output_path)"
  by (simp add: etl_def create_song_df_frame create_log_df_frame)

text \<open>The storage after a whole run, with the generated identifiers gone from the fact table.\<close>

lemma etl_result:
  "etl spark song_files log_files output_path st =
     (let song_df = song_frame spark song_files;
          df = df_next_song (log_frame spark log_files);
          st1 = st(output_path @ ''songs/songs.parquet'' \<mapsto>
                     \<lparr>table = songs_table spark song_df, partition_by = [''year'', ''artist_id'']\<rparr>,
                   output_path @ ''artists/artists.parquet'' \<mapsto>
                     \<lparr>table = artists_table spark song_df, partition_by = []\<rparr>,
                   output_path @ ''users/users.parquet'' \<mapsto>
                     \<lparr>table = users_table spark df, partition_by = []\<rparr>)
      in case df_timestamp spark df of
           Inl e \<Rightarrow> (st1, Some e)
         | Inr df' \<Rightarrow>
             (st1(output_path @ ''time/time.parquet'' \<mapsto>
                    \<lparr>table = time_table spark df', partition_by = [''year'', ''month'']\<rparr>,
                  output_path @ ''songplays/songplays.parquet'' \<mapsto>
                    \<lparr>table = songplays (join_df df' song_df
                       (And (Eq (Col ''title'') (Col ''song''))
                            (Eq (Col ''artist_name'') (Col ''artist'')))),
                     partition_by = [''year'', ''month'']\<rparr>), None))"
proof (cases "df_timestamp spark (df_next_song (log_frame spark log_files))")
  case (Inl e)
  then show ?thesis
    by (simp add: etl_storage process_song_data_storage process_log_data_storage
        and_then_def Let_def)
next
  case (Inr df')
  then have "well_formed df'"
    using well_formed_df_timestamp well_formed_next_song by blast
  then have "songplays (df_joined spark df' (song_frame spark song_files)) =
      songplays (join_df df' (song_frame spark song_files)
           (And (Eq (Col ''title'') (Col ''song'')) (Eq (Col ''artist_name'') (Col ''artist''))))"
    by (rule songplays_df_joined)
       (simp_all add: well_formed_song_frame columns_timestamped [OF Inr] columns_log_frame
          columns_song_frame)
  with Inr show ?thesis
    by (simp add: etl_storage process_song_data_storage process_log_data_storage
        and_then_def Let_def)
qed

subsection \<open>Cells of a frame read from JSON\<close>

lemma map_of_zip_map_key:
  "x \<in> set xs \<Longrightarrow> inj_on k (set xs) \<Longrightarrow>
     map_of (zip (map k xs) (map g xs)) (k x) = Some (g x)"
  by (induction xs) (auto simp: inj_on_def)

lemma json_frame_null_cell:
  assumes "distinct (map field_name schema)" and "f \<in> set schema" and "i < length objs"
    and "map_of (objs ! i) (field_name f) = None \<or> parse_field parser (objs ! i) f = None"
  shows "cell_of (columns (json_frame parser schema objs))
           (rows (json_frame parser schema objs) ! i) (field_name f) = CNull"
proof -
  let ?g = "\<lambda>f. case parse_field parser (objs ! i) f of Some c \<Rightarrow> c | None \<Rightarrow> CNull"
  have "inj_on field_name (set schema)"
    using assms(1) by (simp add: distinct_map)
  then have "map_of (zip (map field_name schema) (map ?g schema)) (field_name f) = Some (?g f)"
    using assms(2) by (simp add: map_of_zip_map_key)
  moreover have "?g f = CNull"
    using assms(4) by (cases f) (auto split: option.splits)
  ultimately show ?thesis
    using assms(3) by (simp add: json_frame_def cell_of_def parse_record_def)
qed

lemma distinct_schema_names:
  "distinct (map field_name song_schema)" "distinct (map field_name log_schema)"
  by (simp_all add: song_schema_def log_schema_def)

subsection \<open>Rows of the users, time and songplays tables\<close>

lemma rows_select: "rows (select es df) = map (\<lambda>r. map (eval (columns df) r) es) (rows df)"
  by (simp add: select_def)

lemma rows_dropDuplicates_subset: "set (rows (dropDuplicates pick ks df)) \<subseteq> set (rows df)"
  by (simp add: dropDuplicates_def set_dedup)

lemma users_table_row:
  assumes "r \<in> set (rows (users_table spark (df_next_song log_df)))"
  obtains e where "e \<in> set (rows log_df)" and "is_next_song log_df e"
    and "r = user_row log_df e"
proof -
  from assms have "r \<in> set (rows (select (map Col user_fields) (df_next_song log_df)))"
    unfolding users_table_def using rows_dropDuplicates_subset by blast
  then obtain e where "e \<in> set (rows (df_next_song log_df))"
    and "r = map (eval (columns (df_next_song log_df)) e) (map Col user_fields)"
    by (auto simp: rows_select)
  then show thesis
    using that [of e]
    by (simp add: rows_df_next_song columns_df_next_song is_next_song_def user_row_def o_def)
qed

lemma time_table_row:
  assumes "df_timestamp spark (df_next_song (log_frame spark log_files)) = Inr df"
    and "r \<in> set (rows (time_table spark df))"
  obtains e ms where "e \<in> set (rows (log_frame spark log_files))"
    and "is_next_song (log_frame spark log_files) e"
    and "cell_of (columns (log_frame spark log_files)) e ''ts'' = CInt ms"
    and "r = time_row (local_micros (utcoffset spark) ms)"
    and "1 \<le> year_of (local_micros (utcoffset spark) ms)"
    and "year_of (local_micros (utcoffset spark) ms) \<le> 9999"
proof -
  let ?L = "log_frame spark log_files"
  from assms(2) obtain l where l: "l \<in> set (rows df)"
    and r: "r = map (eval (columns df) l)
          [Alias (Col ''timestamp'') ''start_time'',
           Alias (Hour (Col ''timestamp'')) ''hour'',
           Alias (DayOfMonth (Col ''timestamp'')) ''day'',
           Alias (WeekOfYear (Col ''timestamp'')) ''week'',
           Alias (Month (Col ''timestamp'')) ''month'',
           Alias (Year (Col ''timestamp'')) ''year'']"
    unfolding time_table_def using rows_dropDuplicates_subset by (fastforce simp: rows_select)
  from assms(1) l obtain e ms where e: "e \<in> set (rows ?L)"
    and p: "cell_of (columns ?L) e ''page'' = CStr ''NextSong''"
    and t: "cell_of (columns ?L) e ''ts'' = CInt ms"
    and le: "l = e @ [CTime (local_micros (utcoffset spark) ms)]"
    and y: "1 \<le> year_of (local_micros (utcoffset spark) ms)"
      "year_of (local_micros (utcoffset spark) ms) \<le> 9999"
    by (rule timestamped_row)
  have c: "columns df = columns ?L @ [''timestamp'']"
    using assms(1) by (rule columns_timestamped)
  have "cell_of (columns ?L @ [''timestamp'']) (e @ [CTime (local_micros (utcoffset spark) ms)])
          ''timestamp'' = CTime (local_micros (utcoffset spark) ms)"
    by (rule cell_of_snoc_new) (simp_all add: length_row_log_frame [OF e] columns_log_frame)
  then have "r = time_row (local_micros (utcoffset spark) ms)"
    by (simp add: r le c time_row_def time_field_def)
  with e p t y that show thesis
    by (simp add: is_next_song_def)
qed





lemma joined_cells:
  assumes "length e = length cs" and "n' \<notin> set cs"
  shows "cell_of ((cs @ [n']) @ cs') ((e @ [v]) @ s) n' = v"
    and "n \<in> set cs \<Longrightarrow> cell_of ((cs @ [n']) @ cs') ((e @ [v]) @ s) n = cell_of cs e n"
    and "n \<notin> set cs \<Longrightarrow> n \<noteq> n' \<Longrightarrow> cell_of ((cs @ [n']) @ cs') ((e @ [v]) @ s) n = cell_of cs' s n"
proof -
  have l: "length (e @ [v]) = length (cs @ [n'])" using assms(1) by simp
  show "cell_of ((cs @ [n']) @ cs') ((e @ [v]) @ s) n' = v"
    using cell_of_append_left [OF l, of n' cs' s] cell_of_snoc_new [OF assms] by simp
  show "cell_of ((cs @ [n']) @ cs') ((e @ [v]) @ s) n = cell_of cs e n" if "n \<in> set cs"
    using that cell_of_append_left [OF l, of n cs' s] cell_of_snoc [OF assms(1), of n n' v] assms(2)
    by auto
  show "cell_of ((cs @ [n']) @ cs') ((e @ [v]) @ s) n = cell_of cs' s n"
    if "n \<notin> set cs" "n \<noteq> n'"
    using that cell_of_append_right [OF l, of n cs' s] by simp
qed

lemma joined_cells_Cons:
  assumes "length e = length cs" and "n' \<notin> set cs"
  shows "cell_of (cs @ n' # cs') (e @ v # s) n' = v"
    and "n \<in> set cs \<Longrightarrow> cell_of (cs @ n' # cs') (e @ v # s) n = cell_of cs e n"
    and "n \<notin> set cs \<Longrightarrow> n \<noteq> n' \<Longrightarrow> cell_of (cs @ n' # cs') (e @ v # s) n = cell_of cs' s n"
  using joined_cells(1) [where cs' = cs' and v = v and s = s, OF assms]
    joined_cells(2,3) [where cs' = cs' and v = v and s = s and n = n, OF assms]
  by simp_all

lemma join_condition_matches:
  assumes "e \<in> set (rows (log_frame spark log_files))"
  shows "eval ((columns (log_frame spark log_files) @ [''timestamp''])
                 @ columns (song_frame spark song_files)) ((e @ [v]) @ s)
           (And (Eq (Col ''title'') (Col ''song'')) (Eq (Col ''artist_name'') (Col ''artist'')))
           = CBool True
         \<longleftrightarrow> song_matches (song_frame spark song_files) (log_frame spark log_files) e s"
proof -
  let ?L = "columns (log_frame spark log_files)"
  have l: "length e = length ?L" and n: "''timestamp'' \<notin> set ?L"
    by (simp_all add: length_row_log_frame [OF assms] columns_log_frame)
  have "''song'' \<in> set ?L" "''artist'' \<in> set ?L"
    "''title'' \<notin> set ?L" "''title'' \<noteq> ''timestamp''"
    "''artist_name'' \<notin> set ?L" "''artist_name'' \<noteq> ''timestamp''"
    by (simp_all add: columns_log_frame)
  then show ?thesis
    by (simp add: joined_cells_Cons [OF l n] sql_and_True sql_eq_True song_matches_def)
qed

lemma songplays_selection:
  assumes "e \<in> set (rows (log_frame spark log_files))"
  shows "map (eval ((columns (log_frame spark log_files) @ [''timestamp''])
                 @ columns (song_frame spark song_files)) ((e @ [CTime t]) @ s))
       [Alias (Col ''timestamp'') ''start_time'',
        Col ''userId'',
        Col ''level'',
        Col ''song_id'',
        Col ''artist_id'',
        Col ''sessionId'',
        Col ''location'',
        Col ''userAgent'',
        Alias (Year (Col ''timestamp'')) ''year'',
        Alias (Month (Col ''timestamp'')) ''month'']
     = songplay_row (song_frame spark song_files) (log_frame spark log_files) e t s"
proof -
  let ?L = "columns (log_frame spark log_files)"
  have l: "length e = length ?L" and n: "''timestamp'' \<notin> set ?L"
    by (simp_all add: length_row_log_frame [OF assms] columns_log_frame)
  have "''userId'' \<in> set ?L" "''level'' \<in> set ?L" "''sessionId'' \<in> set ?L"
    "''location'' \<in> set ?L" "''userAgent'' \<in> set ?L"
    "''song_id'' \<notin> set ?L" "''song_id'' \<noteq> ''timestamp''"
    "''artist_id'' \<notin> set ?L" "''artist_id'' \<noteq> ''timestamp''"
    by (simp_all add: columns_log_frame)
  then show ?thesis
    by (simp add: joined_cells_Cons [OF l n] songplay_row_def time_field_def)
qed

lemma rows_songplays_join:
  "rows (songplays (join_df df song_df cond)) =
     concat (map (\<lambda>l. map (\<lambda>s. map (eval (columns df @ columns song_df) (l @ s))
                                [Alias (Col ''timestamp'') ''start_time'',
                                 Col ''userId'',
                                 Col ''level'',
                                 Col ''song_id'',
                                 Col ''artist_id'',
                                 Col ''sessionId'',
                                 Col ''location'',
                                 Col ''userAgent'',
                                 Alias (Year (Col ''timestamp'')) ''year'',
                                 Alias (Month (Col ''timestamp'')) ''month''])
                      (filter (\<lambda>s. eval (columns df @ columns song_df) (l @ s) cond = CBool True)
                         (rows song_df)))
               (rows df))"
  by (simp add: songplays_def select_def join_df_def Let_def map_concat o_def)

lemma songplays_row:
  assumes "df_timestamp spark (df_next_song (log_frame spark log_files)) = Inr df"
    and "r \<in> set (rows (songplays (join_df df (song_frame spark song_files)
           (And (Eq (Col ''title'') (Col ''song'')) (Eq (Col ''artist_name'') (Col ''artist''))))))"
  obtains e ms s where "e \<in> set (rows (log_frame spark log_files))"
    and "is_next_song (log_frame spark log_files) e"
    and "cell_of (columns (log_frame spark log_files)) e ''ts'' = CInt ms"
    and "s \<in> set (rows (song_frame spark song_files))"
    and "song_matches (song_frame spark song_files) (log_frame spark log_files) e s"
    and "r = songplay_row (song_frame spark song_files) (log_frame spark log_files) e
               (local_micros (utcoffset spark) ms) s"
proof -
  let ?L = "log_frame spark log_files" and ?S = "song_frame spark song_files"
  let ?c = "And (Eq (Col ''title'') (Col ''song'')) (Eq (Col ''artist_name'') (Col ''artist''))"
  have c: "columns df = columns ?L @ [''timestamp'']"
    using assms(1) by (rule columns_timestamped)
  from assms(2) obtain l s where l: "l \<in> set (rows df)" and s: "s \<in> set (rows ?S)"
    and m: "eval (columns df @ columns ?S) (l @ s) ?c = CBool True"
    and r: "r = map (eval (columns df @ columns ?S) (l @ s))
                                [Alias (Col ''timestamp'') ''start_time'',
                                 Col ''userId'',
                                 Col ''level'',
                                 Col ''song_id'',
                                 Col ''artist_id'',
                                 Col ''sessionId'',
                                 Col ''location'',
                                 Col ''userAgent'',
                                 Alias (Year (Col ''timestamp'')) ''year'',
                                 Alias (Month (Col ''timestamp'')) ''month'']"
    unfolding rows_songplays_join by auto
  from assms(1) l obtain e ms where e: "e \<in> set (rows ?L)"
    and p: "cell_of (columns ?L) e ''page'' = CStr ''NextSong''"
    and t: "cell_of (columns ?L) e ''ts'' = CInt ms"
    and le: "l = e @ [CTime (local_micros (utcoffset spark) ms)]"
    by (rule timestamped_row)
  have "song_matches ?S ?L e s"
    using m join_condition_matches [OF e] by (simp add: c le)
  moreover have "r = songplay_row ?S ?L e (local_micros (utcoffset spark) ms) s"
    unfolding r c le by (rule songplays_selection [OF e])
  ultimately show thesis
    using that e p t s by (simp add: is_next_song_def)
qed



lemma etl_outcome:
  "snd (etl spark song_files log_files output_path st) =
     (case df_timestamp spark (df_next_song (log_frame spark log_files)) of
        Inl e \<Rightarrow> Some e | Inr df \<Rightarrow> None)"
  by (simp add: etl_result Let_def split: sum.split)

lemma etl_tables:
  assumes "df_timestamp spark (df_next_song (log_frame spark log_files)) = Inr df"
  shows "fst (etl spark song_files log_files output_path st) (output_path @ ''users/users.parquet'')
           = Some \<lparr>table = users_table spark (df_next_song (log_frame spark log_files)),
                    partition_by = []\<rparr>"
    and "fst (etl spark song_files log_files output_path st) (output_path @ ''time/time.parquet'')
           = Some \<lparr>table = time_table spark df, partition_by = [''year'', ''month'']\<rparr>"
    and "fst (etl spark song_files log_files output_path st)
             (output_path @ ''songplays/songplays.parquet'')
           = Some \<lparr>table = songplays (join_df df (song_frame spark song_files)
                       (And (Eq (Col ''title'') (Col ''song''))
                            (Eq (Col ''artist_name'') (Col ''artist'')))),
                    partition_by = [''year'', ''month'']\<rparr>"
  using assms by (simp_all add: etl_result Let_def)

lemma etl_users:
  "fst (etl spark song_files log_files output_path st) (output_path @ ''users/users.parquet'')
     = Some \<lparr>table = users_table spark (df_next_song (log_frame spark log_files)),
              partition_by = []\<rparr>"
  by (simp add: etl_result Let_def split: sum.split)

lemma etl_completes:
  assumes "snd (etl spark song_files log_files output_path st) = None"
  obtains df where "df_timestamp spark (df_next_song (log_frame spark log_files)) = Inr df"
  using assms by (auto simp: etl_outcome split: sum.splits)

lemma df_next_song_idem: "df_next_song (df_next_song df) = df_next_song df"
  by (simp add: df_next_song_def filter_df_def)

subsection \<open>The columns the program names\<close>

text \<open>
  On the frames the readers return, every column that a selection, a filter, the join, a
  deduplication key or a partitioning names is a column of the frame it is named on: the
  engine's error for an unknown column does not arise in a run.
\<close>

lemma song_columns_resolve:
  "set song_fields \<subseteq> set (columns (song_frame spark song_files))"
  "set artist_fields \<subseteq> set (columns (song_frame spark song_files))"
  "''song_id'' \<in> set (columns (select (map Col song_fields) (song_frame spark song_files)))"
  "set [''year'', ''artist_id''] \<subseteq> set (columns (songs_table spark (song_frame spark song_files)))"
  "columns (artists_table spark (song_frame spark song_files)) =
     [''artist_id'', ''artist'', ''location'', ''latitude'', ''longitude'']"
  by (simp_all add: columns_song_frame song_fields_def artist_fields_def select_def
      songs_table_def artists_table_def dropDuplicates_def withColumnRenamed_def)

lemma log_columns_resolve:
  assumes "df_timestamp spark (df_next_song (log_frame spark log_files)) = Inr df"
  shows "''page'' \<in> set (columns (log_frame spark log_files))"
    and "set user_fields \<subseteq> set (columns (df_next_song (log_frame spark log_files)))"
    and "''ts'' \<in> set (columns (df_next_song (log_frame spark log_files)))"
    and "''timestamp'' \<in> set (columns df)"
    and "set [''year'', ''month''] \<subseteq> set (columns (time_table spark df))"
    and "set (references (And (Eq (Col ''title'') (Col ''song''))
                              (Eq (Col ''artist_name'') (Col ''artist''))))
          \<subseteq> set (columns df @ columns (song_frame spark song_files))"
    and "set [''timestamp'', ''userId'', ''level'', ''song_id'', ''artist_id'', ''sessionId'',
              ''location'', ''userAgent'']
          \<subseteq> set (columns (df_joined spark df (song_frame spark song_files)))"
    and "set [''year'', ''month'']
          \<subseteq> set (columns (songplays (df_joined spark df (song_frame spark song_files))))"
  by (simp_all add: columns_timestamped [OF assms] columns_log_frame columns_song_frame
      columns_df_next_song user_fields_def time_table_def dropDuplicates_def select_def
      df_joined_def Let_def withColumn_def columns_join_df songplays_def)

subsection \<open>The generated identifiers\<close>

text \<open>
  The identifiers of the joined frame are pairwise distinct when no partition but the last
  holds more than \<open>2^33\<close> rows, which is the engine's own assumption.
\<close>

lemma monotonically_increasing_id_lower:
  "x \<in> set (monotonically_increasing_id ss p n) \<Longrightarrow> int p * 8589934592 \<le> x"
proof (induction ss p n arbitrary: x rule: monotonically_increasing_id.induct)
  case (1 p n)
  then show ?case by auto
next
  case (2 s ss p n)
  show ?case
  proof (cases "n \<le> s")
    case True
    with 2(2) show ?thesis by auto
  next
    case False
    from 2(2) False consider "x \<in> (\<lambda>j. int p * 8589934592 + int j) ` {0..<s}"
      | "x \<in> set (monotonically_increasing_id ss (Suc p) (n - s))"
      by auto
    then show ?thesis
    proof cases
      case 1
      then show ?thesis by auto
    next
      case 2
      with "2.IH" [OF False] have "int (Suc p) * 8589934592 \<le> x" by simp
      then show ?thesis by simp
    qed
  qed
qed

lemma distinct_monotonically_increasing_id:
  "list_all (\<lambda>s. s \<le> 8589934592) ss \<Longrightarrow> distinct (monotonically_increasing_id ss p n)"
proof (induction ss p n rule: monotonically_increasing_id.induct)
  case (1 p n)
  then show ?case by (simp add: distinct_map inj_on_def)
next
  case (2 s ss p n)
  show ?case
  proof (cases "n \<le> s")
    case True
    then show ?thesis by (simp add: distinct_map inj_on_def)
  next
    case False
    have d: "distinct (monotonically_increasing_id ss (Suc p) (n - s))"
      using "2.IH" [OF False] "2.prems" by simp
    have "x \<noteq> y" if "x \<in> (\<lambda>j. int p * 8589934592 + int j) ` {0..<s}"
      and "y \<in> set (monotonically_increasing_id ss (Suc p) (n - s))" for x y
    proof -
      from that(1) "2.prems" have "x < int p * 8589934592 + 8589934592" by auto
      moreover from that(2) have "int (Suc p) * 8589934592 \<le> y"
        by (rule monotonically_increasing_id_lower)
      ultimately show ?thesis by simp
    qed
    then have "(\<lambda>j. int p * 8589934592 + int j) ` {0..<s}
        \<inter> set (monotonically_increasing_id ss (Suc p) (n - s)) = {}"
      by blast
    with d False show ?thesis by (simp add: distinct_map inj_on_def)
  qed
qed

lemma column_values_withColumn:
  assumes "well_formed df" and "length vals = length (rows df)" and "n \<notin> set (columns df)"
  shows "column_values n (withColumn n vals df) = vals"
proof -
  have "map (\<lambda>x. cell_of (columns df @ [n]) (fst x @ [snd x]) n) (zip (rows df) vals)
        = map snd (zip (rows df) vals)"
  proof (rule map_cong [OF refl])
    fix x assume "x \<in> set (zip (rows df) vals)"
    then have "fst x \<in> set (rows df)" by (metis prod.collapse set_zip_leftD)
    with assms(1) have "length (fst x) = length (columns df)"
      by (simp add: well_formed_def list_all_iff)
    then show "cell_of (columns df @ [n]) (fst x @ [snd x]) n = snd x"
      using assms(3) by (rule cell_of_snoc_new)
  qed
  then show ?thesis
    using assms(2,3) by (simp add: column_values_def withColumn_def o_def case_prod_unfold)
qed

lemma songplay_ids_distinct:
  assumes "df_timestamp spark (df_next_song (log_frame spark log_files)) = Inr df"
    and "list_all (\<lambda>s. s \<le> 8589934592) (partition_sizes spark)"
  shows "distinct (column_values ''songplay_id''
           (df_joined spark df (song_frame spark song_files)))"
proof -
  let ?j = "join_df df (song_frame spark song_files)
              (And (Eq (Col ''title'') (Col ''song'')) (Eq (Col ''artist_name'') (Col ''artist'')))"
  let ?ids = "monotonically_increasing_id (partition_sizes spark) 0 (length (rows ?j))"
  have "well_formed df"
    using assms(1) well_formed_df_timestamp well_formed_next_song by blast
  then have "well_formed ?j"
    by (rule well_formed_join_df) (rule well_formed_song_frame)
  moreover have "''songplay_id'' \<notin> set (columns ?j)"
    by (simp add: columns_join_df columns_timestamped [OF assms(1)] columns_log_frame
        columns_song_frame)
  ultimately have "column_values ''songplay_id'' (withColumn ''songplay_id'' (map CInt ?ids) ?j)
      = map CInt ?ids"
    by (simp add: column_values_withColumn length_monotonically_increasing_id)
  moreover have "distinct (map CInt ?ids)"
    using distinct_monotonically_increasing_id [OF assms(2)] by (simp add: distinct_map inj_on_def)
  ultimately show ?thesis
    by (simp add: df_joined_def Let_def)
qed

section \<open>Dimension keys of the song data\<close>

text \<open>
  C5. Whatever frame of song records the run reads and whichever duplicate the engine
  keeps, \<^verbatim>\<open>process_song_data\<close> persists the songs and the artists table, the songs
  table has no two rows with the same \<open>song_id\<close> and the artists table no two rows with
  the same \<open>artist_id\<close>, and the keys of either output are exactly the keys that occur
  in the input.
\<close>

theorem song_dimension_keys:
  "(let st' = fst (process_song_data spark song_df output_path st);
        songs = st' (output_path @ ''songs/songs.parquet'');
        artists = st' (output_path @ ''artists/artists.parquet'')
    in songs = Some \<lparr>table = songs_table spark song_df, partition_by = [''year'', ''artist_id'']\<rparr>
     \<and> artists = Some \<lparr>table = artists_table spark song_df, partition_by = []\<rparr>)
   \<and> distinct (column_values ''song_id'' (songs_table spark song_df))
   \<and> set (column_values ''song_id'' (songs_table spark song_df)) =
       set (column_values ''song_id'' song_df)
   \<and> distinct (column_values ''artist_id'' (artists_table spark song_df))
   \<and> set (column_values ''artist_id'' (artists_table spark song_df)) =
       set (column_values ''artist_id'' song_df)"
  by (simp add: process_song_data_storage songs_table_keys artists_table_keys)

section \<open>Write mode and partitioning\<close>

text \<open>
  C8. Every write of the program replaces what the storage holds at its destination,
  whatever was there before: the storage after \<^verbatim>\<open>process_song_data\<close> and after
  \<^verbatim>\<open>process_log_data\<close> is the storage before with the destinations set to the new
  tables. The songs table is partitioned by year and artist_id, the artists and the users
  table by nothing, the time table and the songplays table by year and month.
\<close>

theorem writes_overwrite_and_partition:
  "process_song_data spark song_df output_path st =
     (st(output_path @ ''songs/songs.parquet'' \<mapsto>
           \<lparr>table = songs_table spark song_df, partition_by = [''year'', ''artist_id'']\<rparr>,
         output_path @ ''artists/artists.parquet'' \<mapsto>
           \<lparr>table = artists_table spark song_df, partition_by = []\<rparr>), None)
   \<and> process_log_data spark song_df log_df output_path st =
     (case df_timestamp spark (df_next_song log_df) of
        Inl e \<Rightarrow>
          (st(output_path @ ''users/users.parquet'' \<mapsto>
                \<lparr>table = users_table spark (df_next_song log_df), partition_by = []\<rparr>),
           Some e)
      | Inr df \<Rightarrow>
          (st(output_path @ ''users/users.parquet'' \<mapsto>
                \<lparr>table = users_table spark (df_next_song log_df), partition_by = []\<rparr>,
              output_path @ ''time/time.parquet'' \<mapsto>
                \<lparr>table = time_table spark df, partition_by = [''year'', ''month'']\<rparr>,
              output_path @ ''songplays/songplays.parquet'' \<mapsto>
                \<lparr>table = songplays (df_joined spark df song_df),
                 partition_by = [''year'', ''month'']\<rparr>), None))"
  by (simp add: process_song_data_storage process_log_data_storage Let_def)

section \<open>The identifier of a play\<close>

text \<open>
  C1. The joined frame of \<^verbatim>\<open>process_log_data\<close> carries the column \<open>songplay_id\<close>,
  with pairwise distinct values (\<open>songplay_ids_distinct\<close>), but the selection that
  builds the songplays table does not name it: the table that is written has the ten
  columns below and no \<open>songplay_id\<close>.
\<close>

theorem songplay_id_not_persisted:
  "''songplay_id'' \<in> set (columns (df_joined spark df song_df))
   \<and> columns (songplays (df_joined spark df song_df)) =
       [''start_time'', ''userId'', ''level'', ''song_id'', ''artist_id'', ''sessionId'',
        ''location'', ''userAgent'', ''year'', ''month'']
   \<and> ''songplay_id'' \<notin> set (columns (songplays (df_joined spark df song_df)))"
  by (simp add: df_joined_def songplays_def select_def withColumn_def Let_def)

section \<open>The persisted layout\<close>

text \<open>
  C4. \<^verbatim>\<open>main\<close> joins its output root \<^verbatim>\<open>s3a://project4-alex\<close> and the table
  directories without a separator: starting from an empty storage, whatever a run of
  \<^verbatim>\<open>main\<close> writes is at one of the five paths below, the songs table is at the first
  of them, and nothing is written under \<^verbatim>\<open>s3a://project4-alex/songs/\<close>.
\<close>

theorem main_output_paths:
  "dom (fst (main spark Map.empty)) \<subseteq>
     {''s3a://project4-alexsongs/songs.parquet'', ''s3a://project4-alexartists/artists.parquet'',
      ''s3a://project4-alexusers/users.parquet'', ''s3a://project4-alextime/time.parquet'',
      ''s3a://project4-alexsongplays/songplays.parquet''}
   \<and> fst (main spark Map.empty) ''s3a://project4-alexsongs/songs.parquet'' \<noteq> None
   \<and> fst (main spark Map.empty) ''s3a://project4-alex/songs/songs.parquet'' = None"
  by (cases "df_timestamp spark (df_next_song (log_frame spark ''s3a://udacity-dend/log_data/*/*/*.json''))")
     (simp_all add: main_def etl_result Let_def)

section \<open>Records that do not fit the schema\<close>

text \<open>
  C2, as the program behaves. The two readers name a schema and no parse mode, and the
  reader's default mode is the permissive one. So \<^verbatim>\<open>create_song_df\<close> and
  \<^verbatim>\<open>create_log_df\<close> never fail: they return a table with one row for every record
  of the source, and in that row the cell of every field that the record lacks, or whose
  value does not fit the type of the field, is null. This holds for required fields as
  for optional ones.
\<close>

theorem readers_are_permissive:
  "create_song_df spark song_files = Inr (song_frame spark song_files)
   \<and> create_log_df spark log_files = Inr (log_frame spark log_files)
   \<and> length (rows (song_frame spark song_files)) = length (files spark song_files)
   \<and> length (rows (log_frame spark log_files)) = length (files spark log_files)
   \<and> (\<forall>i < length (files spark song_files). \<forall>f \<in> set song_schema.
         map_of (files spark song_files ! i) (field_name f) = None
           \<or> parse_field (json_parser spark) (files spark song_files ! i) f = None
         \<longrightarrow> cell_of (columns (song_frame spark song_files))
               (rows (song_frame spark song_files) ! i) (field_name f) = CNull)
   \<and> (\<forall>i < length (files spark log_files). \<forall>f \<in> set log_schema.
         map_of (files spark log_files ! i) (field_name f) = None
           \<or> parse_field (json_parser spark) (files spark log_files ! i) f = None
         \<longrightarrow> cell_of (columns (log_frame spark log_files))
               (rows (log_frame spark log_files) ! i) (field_name f) = CNull)"
  using json_frame_null_cell [OF distinct_schema_names(1)]
    json_frame_null_cell [OF distinct_schema_names(2)]
  by (simp add: create_song_df_frame create_log_df_frame song_frame_def log_frame_def)
     (simp add: json_frame_def)

text \<open>
  The theorem at a song record without its required title and a log event whose required
  \<open>ts\<close> is a string.
\<close>

theorem readers_are_permissive_witness:
  "(0::nat) < length (files (session_of [song_no_title] [event_no_page, event_bad_ts] 0) ''songs'')
   \<and> StructField ''title'' StringType False \<in> set song_schema
   \<and> \<not> field_nullable (StructField ''title'' StringType False)
   \<and> map_of (files (session_of [song_no_title] [event_no_page, event_bad_ts] 0) ''songs'' ! 0)
        (field_name (StructField ''title'' StringType False)) = None
   \<and> cell_of (columns (song_frame (session_of [song_no_title] [event_no_page, event_bad_ts] 0) ''songs''))
        (rows (song_frame (session_of [song_no_title] [event_no_page, event_bad_ts] 0) ''songs'') ! 0)
        ''title'' = CNull
   \<and> (1::nat) < length (files (session_of [song_no_title] [event_no_page, event_bad_ts] 0) ''logs'')
   \<and> StructField ''ts'' LongType False \<in> set log_schema
   \<and> \<not> field_nullable (StructField ''ts'' LongType False)
   \<and> parse_field (json_parser (session_of [song_no_title] [event_no_page, event_bad_ts] 0))
        (files (session_of [song_no_title] [event_no_page, event_bad_ts] 0) ''logs'' ! 1)
        (StructField ''ts'' LongType False) = None
   \<and> cell_of (columns (log_frame (session_of [song_no_title] [event_no_page, event_bad_ts] 0) ''logs''))
        (rows (log_frame (session_of [song_no_title] [event_no_page, event_bad_ts] 0) ''logs'') ! 1)
        ''ts'' = CNull"
proof -
  let ?s = "session_of [song_no_title] [event_no_page, event_bad_ts] 0"
  have h1: "(0::nat) < length (files ?s ''songs'')"
    and h2: "StructField ''title'' StringType False \<in> set song_schema"
    and h3: "map_of (files ?s ''songs'' ! 0) (field_name (StructField ''title'' StringType False)) = None"
    and h4: "(1::nat) < length (files ?s ''logs'')"
    and h5: "StructField ''ts'' LongType False \<in> set log_schema"
    and h6: "parse_field (json_parser ?s) (files ?s ''logs'' ! 1) (StructField ''ts'' LongType False) = None"
    by (simp_all add: session_of_def song_schema_def log_schema_def song_no_title_def
        event_bad_ts_def parse_value_def)
  from readers_are_permissive [of ?s "''songs''" "''logs''"] h1 h2 h3
  have a: "cell_of (columns (song_frame ?s ''songs'')) (rows (song_frame ?s ''songs'') ! 0)
             (field_name (StructField ''title'' StringType False)) = CNull"
    by blast
  from readers_are_permissive [of ?s "''songs''" "''logs''"] h4 h5 h6
  have b: "cell_of (columns (log_frame ?s ''logs'')) (rows (log_frame ?s ''logs'') ! 1)
             (field_name (StructField ''ts'' LongType False)) = CNull"
    by blast
  from h1 h2 h3 h4 h5 h6 a b show ?thesis by simp
qed

text \<open>
  C2 as stated fails: the read of a song record without its required title, and of log
  events without the required page or with a string for the required \<open>ts\<close>, returns
  a table and no error.
\<close>

theorem readers_do_not_fail_counterexample:
  "create_song_df (session_of [song_no_title] [event_no_page, event_bad_ts] 0) ''songs'' =
     Inr \<lparr>columns = [''artist_id'', ''artist_latitude'', ''artist_longitude'', ''artist_location'',
                     ''artist_name'', ''song_id'', ''title'', ''duration'', ''year''],
          rows = [[CStr ''A2'', CNull, CNull, CNull, CStr ''Artist'', CStr ''S2'', CNull, CNull,
                   CNull]]\<rparr>
   \<and> create_log_df (session_of [song_no_title] [event_no_page, event_bad_ts] 0) ''logs'' =
     Inr \<lparr>columns = [''artist'', ''auth'', ''firstName'', ''gender'', ''itemInSession'',
                     ''lastName'', ''length'', ''level'', ''location'', ''method'', ''page'',
                     ''registration'', ''sessionId'', ''song'', ''status'', ''ts'', ''userAgent'',
                     ''userId''],
          rows = [[CStr ''Artist'', CNull, CNull, CNull, CNull, CNull, CNull, CNull, CNull, CNull,
                   CNull, CNull, CNull, CStr ''Test'', CNull, CInt 1541121934796, CNull,
                   CStr ''U1''],
                  [CStr ''Artist'', CNull, CNull, CNull, CNull, CNull, CNull, CNull, CNull, CNull,
                   CStr ''NextSong'', CNull, CNull, CStr ''Test'', CNull, CNull, CNull,
                   CStr ''U1'']]\<rparr>"
  by code_simp

section \<open>Running the program twice\<close>


section \<open>The local time zone\<close>

text \<open>
  C10. The same event, read on UTC and one hour east of it, gives time rows that differ
  in the start time, the hour, the day, the week, the month and the year, and different
  songplays tables.
\<close>

theorem time_table_depends_on_time_zone:
  "map_option table
     (fst (etl (session_of [song_S1] [event_new_year] 0) ''songs'' ''logs'' ''out/'' Map.empty)
        ''out/time/time.parquet'')
     = Some \<lparr>columns = [''start_time'', ''hour'', ''day'', ''week'', ''month'', ''year''],
              rows = [[CTime 1514764799000000, CInt 23, CInt 31, CInt 52, CInt 12, CInt 2017]]\<rparr>
   \<and> map_option table
     (fst (etl (session_of [song_S1] [event_new_year] 3600) ''songs'' ''logs'' ''out/'' Map.empty)
        ''out/time/time.parquet'')
     = Some \<lparr>columns = [''start_time'', ''hour'', ''day'', ''week'', ''month'', ''year''],
              rows = [[CTime 1514768399000000, CInt 0, CInt 1, CInt 1, CInt 1, CInt 2018]]\<rparr>
   \<and> map_option table
     (fst (etl (session_of [song_S1] [event_new_year] 0) ''songs'' ''logs'' ''out/'' Map.empty)
        ''out/songplays/songplays.parquet'')
     \<noteq> map_option table
     (fst (etl (session_of [song_S1] [event_new_year] 3600) ''songs'' ''logs'' ''out/'' Map.empty)
        ''out/songplays/songplays.parquet'')"
  by code_simp

section \<open>The time table\<close>



section \<open>Only NextSong events reach the log tables\<close>

text \<open>
  C6. Removing from the log input every event whose page is not NextSong changes nothing
  in what \<^verbatim>\<open>process_log_data\<close> does. Every row of the users table a run writes is
  the selection of the user fields from a NextSong event. And when the run completes,
  every row of the time table is the time row of the local time of a NextSong event, and
  every row of the songplays table is built from a NextSong event and a song record that
  matches it.
\<close>

theorem only_next_song_events:
  "process_log_data spark song_df (df_next_song log_df) output_path st =
     process_log_data spark song_df log_df output_path st
   \<and> (\<exists>us. fst (etl spark song_files log_files output_path st)
              (output_path @ ''users/users.parquet'') = Some us
          \<and> (\<forall>r \<in> set (rows (table us)).
                \<exists>e \<in> set (rows (log_frame spark log_files)).
                  is_next_song (log_frame spark log_files) e
                \<and> r = user_row (log_frame spark log_files) e))
   \<and> (snd (etl spark song_files log_files output_path st) = None \<longrightarrow>
        (\<exists>tt sp.
            fst (etl spark song_files log_files output_path st)
              (output_path @ ''time/time.parquet'') = Some tt
          \<and> fst (etl spark song_files log_files output_path st)
              (output_path @ ''songplays/songplays.parquet'') = Some sp
          \<and> (\<forall>r \<in> set (rows (table tt)).
                \<exists>e \<in> set (rows (log_frame spark log_files)). \<exists>ms.
                  is_next_song (log_frame spark log_files) e
                \<and> cell_of (columns (log_frame spark log_files)) e ''ts'' = CInt ms
                \<and> r = time_row (local_micros (utcoffset spark) ms))
          \<and> (\<forall>r \<in> set (rows (table sp)).
                \<exists>e \<in> set (rows (log_frame spark log_files)). \<exists>ms.
                \<exists>s \<in> set (rows (song_frame spark song_files)).
                  is_next_song (log_frame spark log_files) e
                \<and> cell_of (columns (log_frame spark log_files)) e ''ts'' = CInt ms
                \<and> song_matches (song_frame spark song_files) (log_frame spark log_files) e s
                \<and> r = songplay_row (song_frame spark song_files) (log_frame spark log_files) e
                        (local_micros (utcoffset spark) ms) s)))"
proof (intro conjI impI)
  show "process_log_data spark song_df (df_next_song log_df) output_path st =
     process_log_data spark song_df log_df output_path st"
    by (simp add: process_log_data_storage df_next_song_idem)
next
  let ?L = "log_frame spark log_files"
  have "\<exists>e \<in> set (rows ?L). is_next_song ?L e \<and> r = user_row ?L e"
    if "r \<in> set (rows (users_table spark (df_next_song ?L)))" for r
    using that by (rule users_table_row) blast
  then show "\<exists>us. fst (etl spark song_files log_files output_path st)
              (output_path @ ''users/users.parquet'') = Some us
          \<and> (\<forall>r \<in> set (rows (table us)).
                \<exists>e \<in> set (rows ?L). is_next_song ?L e \<and> r = user_row ?L e)"
    by (simp add: etl_users)
next
  let ?L = "log_frame spark log_files" and ?S = "song_frame spark song_files"
  assume "snd (etl spark song_files log_files output_path st) = None"
  then obtain df where df: "df_timestamp spark (df_next_song ?L) = Inr df"
    by (rule etl_completes)
  have t: "\<exists>e \<in> set (rows ?L). \<exists>ms. is_next_song ?L e
             \<and> cell_of (columns ?L) e ''ts'' = CInt ms
             \<and> r = time_row (local_micros (utcoffset spark) ms)"
    if "r \<in> set (rows (time_table spark df))" for r
    using df that by (rule time_table_row) blast
  have p: "\<exists>e \<in> set (rows ?L). \<exists>ms. \<exists>s \<in> set (rows ?S). is_next_song ?L e
             \<and> cell_of (columns ?L) e ''ts'' = CInt ms
             \<and> song_matches ?S ?L e s
             \<and> r = songplay_row ?S ?L e (local_micros (utcoffset spark) ms) s"
    if "r \<in> set (rows (songplays (join_df df ?S
          (And (Eq (Col ''title'') (Col ''song'')) (Eq (Col ''artist_name'') (Col ''artist''))))))"
    for r
    using df that by (rule songplays_row) blast
  show "\<exists>tt sp.
            fst (etl spark song_files log_files output_path st)
              (output_path @ ''time/time.parquet'') = Some tt
          \<and> fst (etl spark song_files log_files output_path st)
              (output_path @ ''songplays/songplays.parquet'') = Some sp
          \<and> (\<forall>r \<in> set (rows (table tt)).
                \<exists>e \<in> set (rows ?L). \<exists>ms.
                  is_next_song ?L e
                \<and> cell_of (columns ?L) e ''ts'' = CInt ms
                \<and> r = time_row (local_micros (utcoffset spark) ms))
          \<and> (\<forall>r \<in> set (rows (table sp)).
                \<exists>e \<in> set (rows ?L). \<exists>ms.
                \<exists>s \<in> set (rows ?S).
                  is_next_song ?L e
                \<and> cell_of (columns ?L) e ''ts'' = CInt ms
                \<and> song_matches ?S ?L e s
                \<and> r = songplay_row ?S ?L e (local_micros (utcoffset spark) ms) s)"
    unfolding etl_tables [OF df] using t p by simp
qed

text \<open>
  The theorem at a run over a NextSong event, an event of page Home by user U2 and a
  NextSong event without a matching song: the run completes and U2 is in no users row.
\<close>

theorem only_next_song_events_witness:
  "snd (etl mixed ''songs'' ''logs'' ''out/'' Map.empty) = None
   \<and> (\<exists>us. fst (etl mixed ''songs'' ''logs'' ''out/'' Map.empty)
              (''out/'' @ ''users/users.parquet'') = Some us
          \<and> (\<forall>r \<in> set (rows (table us)).
                \<exists>e \<in> set (rows (log_frame mixed ''logs'')).
                  is_next_song (log_frame mixed ''logs'') e
                \<and> r = user_row (log_frame mixed ''logs'') e))
   \<and> (\<exists>tt sp.
            fst (etl mixed ''songs'' ''logs'' ''out/'' Map.empty)
              (''out/'' @ ''time/time.parquet'') = Some tt
          \<and> fst (etl mixed ''songs'' ''logs'' ''out/'' Map.empty)
              (''out/'' @ ''songplays/songplays.parquet'') = Some sp
          \<and> (\<forall>r \<in> set (rows (table tt)).
                \<exists>e \<in> set (rows (log_frame mixed ''logs'')). \<exists>ms.
                  is_next_song (log_frame mixed ''logs'') e
                \<and> cell_of (columns (log_frame mixed ''logs'')) e ''ts'' = CInt ms
                \<and> r = time_row (local_micros (utcoffset mixed) ms))
          \<and> (\<forall>r \<in> set (rows (table sp)).
                \<exists>e \<in> set (rows (log_frame mixed ''logs'')). \<exists>ms.
                \<exists>s \<in> set (rows (song_frame mixed ''songs'')).
                  is_next_song (log_frame mixed ''logs'') e
                \<and> cell_of (columns (log_frame mixed ''logs'')) e ''ts'' = CInt ms
                \<and> song_matches (song_frame mixed ''songs'') (log_frame mixed ''logs'') e s
                \<and> r = songplay_row (song_frame mixed ''songs'') (log_frame mixed ''logs'') e
                        (local_micros (utcoffset mixed) ms) s))
   \<and> map_option (rows \<circ> table)
        (fst (etl mixed ''songs'' ''logs'' ''out/'' Map.empty) ''out/users/users.parquet'')
       = Some [[CStr ''U1'', CNull, CNull, CNull, CStr ''free''],
               [CStr ''U3'', CNull, CNull, CNull, CStr ''paid'']]"
proof -
  have h: "snd (etl mixed ''songs'' ''logs'' ''out/'' Map.empty) = None"
    by code_simp
  have v: "map_option (rows \<circ> table)
        (fst (etl mixed ''songs'' ''logs'' ''out/'' Map.empty) ''out/users/users.parquet'')
       = Some [[CStr ''U1'', CNull, CNull, CNull, CStr ''free''],
               [CStr ''U3'', CNull, CNull, CNull, CStr ''paid'']]"
    by code_simp
  from only_next_song_events [of mixed _ _ "''out/''" Map.empty "''songs''" "''logs''"] h v
  show ?thesis by blast
qed

section \<open>The rows of the songplays table\<close>




end
